theory Spec2Isabelle
  imports Main "HOL-Library.Char_ord" "HOL-Library.List_Lexorder"
begin

section \<open>Data model of \<^verbatim>\<open>graph_generator.py\<close>\<close>

text \<open>
  Node dictionaries carry the keys \<^verbatim>\<open>id\<close>, \<^verbatim>\<open>name\<close>, \<^verbatim>\<open>type\<close> and, depending on the
  place that builds them, some of \<^verbatim>\<open>path\<close>, \<^verbatim>\<open>package\<close>, \<^verbatim>\<open>file\<close>, \<^verbatim>\<open>extends\<close>,
  \<^verbatim>\<open>implements\<close>, \<^verbatim>\<open>datatype\<close>, \<^verbatim>\<open>class\<close>, \<^verbatim>\<open>signature\<close>, \<^verbatim>\<open>return_type\<close>.
  A key that is absent is \<open>None\<close>; the only reader of optional keys is \<^verbatim>\<open>node.get\<close>,
  which does not tell an absent key from a stored \<^verbatim>\<open>None\<close>.
\<close>

datatype kind = Package | File | Class | Interface | Method | Field

datatype edge_kind = Contains | Import | Extends | Implements | Calls

datatype extends_attr = ExtName string | ExtNames "string list"

record node =
  nid :: string
  nname :: string
  ntype :: kind
  npath :: "string option"
  npackage :: "string option"
  nfile :: "string option"
  nextends :: "extends_attr option"
  nimplements :: "string list option"
  ndatatype :: "string option"
  nclass :: "string option"
  nsignature :: "string option"
  nreturn_type :: "string option"

record edge =
  source :: string
  target :: string
  etype :: edge_kind

text \<open>What the parser (javalang) hands to the program for one type declaration.\<close>

record method_decl =
  m_name :: string
  m_parameters :: "string list"
  m_return_type :: "string option"
  m_body :: bool
  m_invocations :: "(string option \<times> string) list"

datatype member =
    FieldDeclaration string "string list"
  | MethodDeclaration method_decl
  | OtherDeclaration

datatype extends_ref = NoExtends | ExtendsOne string | ExtendsList "string list"

record type_decl =
  t_name :: string
  t_extends :: extends_ref
  t_implements :: "string list option"
  t_body :: "member list"

text \<open>
  A parsed compilation unit: optional package name, import paths, and the class and
  interface declarations that \<^verbatim>\<open>tree.filter\<close> yields. A file on which reading or
  parsing raises is \<open>None\<close>.
\<close>

type_synonym compilation_unit = "string option \<times> string list \<times> type_decl list"

datatype dir = Dir "(string \<times> dir) list" "(string \<times> compilation_unit option) list"

record gstate =
  nodes :: "node list"
  edges :: "edge list"
  seen_package :: "string set"
  seen_file :: "string set"
  seen_class :: "string set"
  seen_method :: "string set"
  seen_field :: "string set"

section \<open>String helpers\<close>

definition truthy :: "string option \<Rightarrow> bool" where
  "truthy v = (case v of None \<Rightarrow> False | Some s \<Rightarrow> s \<noteq> [])"

definition str_of :: "string option \<Rightarrow> string" where
  "str_of v = (case v of None \<Rightarrow> [] | Some s \<Rightarrow> s)"

definition endswith :: "string \<Rightarrow> string \<Rightarrow> bool" where
  "endswith s suf = (length suf \<le> length s \<and> drop (length s - length suf) s = suf)"

definition startswith :: "string \<Rightarrow> string \<Rightarrow> bool" where
  "startswith s pre = (take (length pre) s = pre)"

text \<open>\<^verbatim>\<open>s.split(c)[0]\<close>: the text before the first occurrence of the separator.\<close>

definition split_first :: "char \<Rightarrow> string \<Rightarrow> string" where
  "split_first c s = takeWhile (\<lambda>x. x \<noteq> c) s"

fun join_comma :: "string list \<Rightarrow> string" where
  "join_comma [] = []"
| "join_comma [x] = x"
| "join_comma (x # y # ys) = x @ '','' @ join_comma (y # ys)"

text \<open>\<^verbatim>\<open>os.path.join\<close> of two components on a POSIX system.\<close>

definition path_join :: "string \<Rightarrow> string \<Rightarrow> string" where
  "path_join a b =
     (if startswith b ''/'' then b
      else if a = [] \<or> endswith a ''/'' then a @ b
      else a @ ''/'' @ b)"

definition rstrip_sep :: "string \<Rightarrow> string" where
  "rstrip_sep s = rev (dropWhile (\<lambda>c. c = CHR ''/'') (rev s))"

definition replace_dot :: "string \<Rightarrow> string" where
  "replace_dot s = map (\<lambda>c. if c = CHR ''.'' then CHR ''_'' else c) s"

section \<open>Parsing one file\<close>

text \<open>
  \<^verbatim>\<open>parse_java_file\<close>: on an exception the triple \<^verbatim>\<open>(None, [], [])\<close>; otherwise the
  package name (the empty string when the unit declares none), the imports and the types.
\<close>

definition parse_java_file ::
  "compilation_unit option \<Rightarrow> string option \<times> string list \<times> type_decl list" where
  "parse_java_file content =
     (case content of
        None \<Rightarrow> (None, [], [])
      | Some (package, imports, types) \<Rightarrow>
          (Some (case package of None \<Rightarrow> [] | Some name \<Rightarrow> name), imports, types))"

section \<open>Graph construction\<close>

definition mk_node :: "string \<Rightarrow> string \<Rightarrow> kind \<Rightarrow> node" where
  "mk_node i n k =
     \<lparr>nid = i, nname = n, ntype = k, npath = None, npackage = None, nfile = None,
      nextends = None, nimplements = None, ndatatype = None, nclass = None,
      nsignature = None, nreturn_type = None\<rparr>"

definition mk_edge :: "string \<Rightarrow> string \<Rightarrow> edge_kind \<Rightarrow> edge" where
  "mk_edge s t k = \<lparr>source = s, target = t, etype = k\<rparr>"

definition add_node :: "node \<Rightarrow> gstate \<Rightarrow> gstate" where
  "add_node n st = st\<lparr>nodes := nodes st @ [n]\<rparr>"

definition add_edge :: "edge \<Rightarrow> gstate \<Rightarrow> gstate" where
  "add_edge e st = st\<lparr>edges := edges st @ [e]\<rparr>"

text \<open>
  The expression \<^verbatim>\<open>pkg + "." + x if pkg else x\<close> of lines 61, 79, 86 and 94.
\<close>

definition qualify :: "string option \<Rightarrow> string \<Rightarrow> string" where
  "qualify pkg x = (if truthy pkg then str_of pkg @ ''.'' @ x else x)"

text \<open>Lines 53-57: one import of the file at \<open>path\<close>.\<close>

definition add_import :: "string \<Rightarrow> gstate \<Rightarrow> string \<Rightarrow> gstate" where
  "add_import path st imp =
     (let st1 = (if imp \<notin> seen_package st
                 then (add_node (mk_node imp imp Package) st)
                        \<lparr>seen_package := insert imp (seen_package st)\<rparr>
                 else st)
      in add_edge (mk_edge path imp Import) st1)"

text \<open>
  Lines 77-83, 85-90 and 92-98: one superclass or interface reference of the type
  \<open>fqcn\<close>. The three loops differ in the kind of the stub node and of the edge only.
\<close>

definition add_reference ::
  "kind \<Rightarrow> edge_kind \<Rightarrow> string option \<Rightarrow> string \<Rightarrow> gstate \<Rightarrow> string \<Rightarrow> gstate" where
  "add_reference k ek pkg fqcn st parent =
     (let pid = qualify pkg parent;
          st1 = (if pid \<notin> seen_class st
                 then (add_node (mk_node pid parent k) st)
                        \<lparr>seen_class := insert pid (seen_class st)\<rparr>
                 else st)
      in add_edge (mk_edge fqcn pid ek) st1)"

text \<open>Lines 103-108: one declarator of a field declaration.\<close>

definition add_declarator :: "string \<Rightarrow> string \<Rightarrow> gstate \<Rightarrow> string \<Rightarrow> gstate" where
  "add_declarator fqcn tname st d =
     (let fid = fqcn @ ''.'' @ d;
          st1 = (if fid \<notin> seen_field st
                 then (add_node ((mk_node fid d Field)
                          \<lparr>ndatatype := Some tname, nclass := Some fqcn\<rparr>) st)
                        \<lparr>seen_field := insert fid (seen_field st)\<rparr>
                 else st)
      in add_edge (mk_edge fqcn fid Contains) st1)"

text \<open>Lines 119-121: one method invocation found in the method \<open>mid\<close>.\<close>

definition add_call :: "string \<Rightarrow> gstate \<Rightarrow> string option \<times> string \<Rightarrow> gstate" where
  "add_call mid st invocation =
     (let qual = (if truthy (fst invocation) then str_of (fst invocation) @ ''.'' else []);
          tgt = qual @ snd invocation
      in add_edge (mk_edge mid tgt Calls) st)"

text \<open>Lines 110-121: a method declaration in the body of the type \<open>fqcn\<close>.\<close>

definition add_method :: "string \<Rightarrow> gstate \<Rightarrow> method_decl \<Rightarrow> gstate" where
  "add_method fqcn st m =
     (let sig = m_name m @ ''('' @ join_comma (m_parameters m) @ '')'';
          mid = fqcn @ ''.'' @ sig;
          st1 = (if mid \<notin> seen_method st
                 then (add_node ((mk_node mid (m_name m) Method)
                          \<lparr>nsignature := Some sig, nclass := Some fqcn,
                           nreturn_type := Some (case m_return_type m of
                                                   None \<Rightarrow> ''void'' | Some r \<Rightarrow> r)\<rparr>) st)
                        \<lparr>seen_method := insert mid (seen_method st)\<rparr>
                 else st);
          st2 = add_edge (mk_edge fqcn mid Contains) st1
      in if m_body m then foldl (add_call mid) st2 (m_invocations m) else st2)"

text \<open>Lines 100-121: one member of the body of the type \<open>fqcn\<close>.\<close>

fun add_member :: "string \<Rightarrow> gstate \<Rightarrow> member \<Rightarrow> gstate" where
  "add_member fqcn st (FieldDeclaration tname declarators) =
     foldl (add_declarator fqcn tname) st declarators"
| "add_member fqcn st (MethodDeclaration m) = add_method fqcn st m"
| "add_member fqcn st OtherDeclaration = st"

text \<open>Truth value of \<^verbatim>\<open>cls.extends\<close> and of \<^verbatim>\<open>getattr(cls, 'implements', None)\<close>.\<close>

fun has_extends :: "extends_ref \<Rightarrow> bool" where
  "has_extends NoExtends = False"
| "has_extends (ExtendsOne p) = True"
| "has_extends (ExtendsList ps) = (ps \<noteq> [])"

fun extends_names :: "extends_ref \<Rightarrow> string list" where
  "extends_names NoExtends = []"
| "extends_names (ExtendsOne p) = [p]"
| "extends_names (ExtendsList ps) = ps"

fun extends_entry :: "extends_ref \<Rightarrow> extends_attr option" where
  "extends_entry NoExtends = None"
| "extends_entry (ExtendsOne p) = Some (ExtName p)"
| "extends_entry (ExtendsList ps) = (if ps \<noteq> [] then Some (ExtNames ps) else None)"

definition implements_names :: "string list option \<Rightarrow> string list" where
  "implements_names v = (case v of None \<Rightarrow> [] | Some xs \<Rightarrow> xs)"

definition implements_entry :: "string list option \<Rightarrow> string list option" where
  "implements_entry v = (case v of None \<Rightarrow> None | Some xs \<Rightarrow> if xs \<noteq> [] then Some xs else None)"

text \<open>Lines 59-121: one type declaration of the file at \<open>path\<close> with package \<open>pkg\<close>.\<close>

definition process_class :: "string \<Rightarrow> string option \<Rightarrow> gstate \<Rightarrow> type_decl \<Rightarrow> gstate" where
  "process_class path pkg st cls =
     (let cls_name = t_name cls;
          fqcn = qualify pkg cls_name;
          st1 = (if fqcn \<notin> seen_class st
                 then (add_node ((mk_node fqcn cls_name Class)
                          \<lparr>npackage := pkg, nfile := Some path,
                           nextends := extends_entry (t_extends cls),
                           nimplements := implements_entry (t_implements cls)\<rparr>) st)
                        \<lparr>seen_class := insert fqcn (seen_class st)\<rparr>
                 else st);
          st2 = add_edge (mk_edge path fqcn Contains) st1;
          st3 = foldl (add_reference Class Extends pkg fqcn) st2 (extends_names (t_extends cls));
          st4 = foldl (add_reference Interface Implements pkg fqcn) st3
                  (implements_names (t_implements cls))
      in foldl (add_member fqcn) st4 (t_body cls))"

text \<open>Lines 37-121: one entry of the \<^verbatim>\<open>files\<close> list of the directory \<open>root\<close>.\<close>

definition process_file ::
  "string \<Rightarrow> gstate \<Rightarrow> string \<times> compilation_unit option \<Rightarrow> gstate" where
  "process_file root st f =
     (let fname = fst f in
      if \<not> endswith fname ''.java'' then st
      else
        let path = path_join root fname;
            parsed = parse_java_file (snd f);
            pkg = fst parsed;
            imports = fst (snd parsed);
            types = snd (snd parsed);
            st1 = (if path \<notin> seen_file st
                   then (add_node ((mk_node path fname File)\<lparr>npath := Some path\<rparr>) st)
                          \<lparr>seen_file := insert path (seen_file st)\<rparr>
                   else st);
            st2 = (if truthy pkg
                   then let st' = (if str_of pkg \<notin> seen_package st1
                                   then (add_node (mk_node (str_of pkg) (str_of pkg) Package) st1)
                                          \<lparr>seen_package := insert (str_of pkg) (seen_package st1)\<rparr>
                                   else st1)
                        in add_edge (mk_edge (str_of pkg) path Contains) st'
                   else st1);
            st3 = foldl (add_import path) st2 imports
        in foldl (process_class path pkg) st3 types)"

text \<open>
  \<^verbatim>\<open>os.walk\<close>, top down, with the pruning of line 36: the directory itself first, then
  every subdirectory whose name is not excluded, in order.
\<close>

definition exclude_dirs :: "string set" where
  "exclude_dirs = {''venv'', ''.venv'', ''.git'', ''.github'', ''__pycache__''}"

fun walk :: "string \<Rightarrow> dir \<Rightarrow> (string \<times> (string \<times> compilation_unit option) list) list" where
  "walk root (Dir ds fs) =
     (root, fs) # concat (map (\<lambda>(d, sub). walk (path_join root d) sub)
                              (filter (\<lambda>(d, sub). d \<notin> exclude_dirs) ds))"

definition process_dir ::
  "gstate \<Rightarrow> string \<times> (string \<times> compilation_unit option) list \<Rightarrow> gstate" where
  "process_dir st entry = foldl (process_file (fst entry)) st (snd entry)"

definition init_state :: gstate where
  "init_state = \<lparr>nodes = [], edges = [], seen_package = {}, seen_file = {},
                 seen_class = {}, seen_method = {}, seen_field = {}\<rparr>"

text \<open>Lines 28-121: the accumulated collections after the traversal.\<close>

definition build :: "string \<Rightarrow> dir \<Rightarrow> gstate" where
  "build src_dir tree = foldl process_dir init_state (walk src_dir tree)"

section \<open>Hierarchy assembly\<close>

text \<open>
  Line 123: the dictionary \<^verbatim>\<open>{n['id']: dict(n, children=[]) for n in nodes}\<close>. Its keys
  are in the order of their first occurrence; a later node with the same id replaces the
  value. A node object of the map is named by its key; the \<^verbatim>\<open>children\<close> list holds
  references to node objects, that is, keys.
\<close>

definition node_map :: "node list \<Rightarrow> string \<rightharpoonup> node" where
  "node_map ns = map_of (rev (map (\<lambda>n. (nid n, n)) ns))"

definition dict_keys :: "string list \<Rightarrow> string list" where
  "dict_keys ks = foldl (\<lambda>acc k. if k \<in> set acc then acc else acc @ [k]) [] ks"

record hierarchy =
  children :: "string \<Rightarrow> string list"
  parent :: "string \<rightharpoonup> string"

definition empty_hierarchy :: hierarchy where
  "empty_hierarchy = \<lparr>children = (\<lambda>k. []), parent = Map.empty\<rparr>"

text \<open>Lines 126-130: the body of the loop over the edges.\<close>

definition link :: "(string \<rightharpoonup> node) \<Rightarrow> hierarchy \<Rightarrow> edge \<Rightarrow> hierarchy" where
  "link nm h e =
     (if etype e = Contains
      then (let src = source e; tgt = target e in
            if nm src \<noteq> None \<and> nm tgt \<noteq> None
            then \<lparr>children = (children h)(src := children h src @ [tgt]),
                  parent = (parent h)(tgt \<mapsto> src)\<rparr>
            else h)
      else h)"

definition assemble :: "node list \<Rightarrow> edge list \<Rightarrow> hierarchy" where
  "assemble ns es = foldl (link (node_map ns)) empty_hierarchy es"

text \<open>Lines 131-133.\<close>

definition roots :: "node list \<Rightarrow> hierarchy \<Rightarrow> string list" where
  "roots ns h =
     (let ks = dict_keys (map nid ns);
          r = filter (\<lambda>n. parent h n = None \<and> map_option ntype (node_map ns n) = Some Package) ks
      in if r = [] then filter (\<lambda>n. parent h n = None) ks else r)"

text \<open>Line 134.\<close>

definition rels :: "edge list \<Rightarrow> edge list" where
  "rels es = filter (\<lambda>e. etype e \<noteq> Contains) es"

section \<open>Module partitioning\<close>

text \<open>
  Lines 144-172. The parameter \<open>relpath\<close> stands for the library function
  \<^verbatim>\<open>os.path.relpath(p, src_dir)\<close> as a function of \<open>p\<close> (it takes the absolute path of
  its argument itself, so line 156 changes nothing).
\<close>

definition module_id :: "(string \<Rightarrow> string) \<Rightarrow> node \<Rightarrow> string" where
  "module_id relpath n =
     (if ntype n = Package then split_first CHR ''.'' (nid n)
      else if ntype n = File then
        (let rel = relpath (nid n) in
         if startswith rel ''..'' then ''root'' else split_first CHR ''/'' rel)
      else if truthy (npackage n) then split_first CHR ''.'' (str_of (npackage n))
      else
        (let fpath = (if truthy (nfile n) then nfile n else npath n) in
         if truthy fpath then split_first CHR ''/'' (relpath (str_of fpath))
         else ''root''))"

text \<open>Lines 175-178: the keys of \<^verbatim>\<open>top_pkg_map\<close>, in insertion order.\<close>

definition module_keys :: "(string \<Rightarrow> string) \<Rightarrow> node list \<Rightarrow> string list" where
  "module_keys relpath ns = dict_keys (map (module_id relpath) ns)"

text \<open>Lines 189-195.\<close>

definition module_nodes :: "(string \<Rightarrow> string) \<Rightarrow> node list \<Rightarrow> string \<Rightarrow> node list" where
  "module_nodes relpath ns top_pkg = filter (\<lambda>n. module_id relpath n = top_pkg) ns"

definition module_node_ids :: "(string \<Rightarrow> string) \<Rightarrow> node list \<Rightarrow> string \<Rightarrow> string set" where
  "module_node_ids relpath ns top_pkg = set (map nid (module_nodes relpath ns top_pkg))"

definition module_edges ::
  "(string \<Rightarrow> string) \<Rightarrow> node list \<Rightarrow> edge list \<Rightarrow> string \<Rightarrow> edge list" where
  "module_edges relpath ns es top_pkg =
     filter (\<lambda>e. source e \<in> module_node_ids relpath ns top_pkg
               \<and> target e \<in> module_node_ids relpath ns top_pkg) es"

datatype error = NameError string | KeyError string

text \<open>
  Lines 200-204: the loop body has no membership test; a key that is missing from
  \<^verbatim>\<open>mod_node_map\<close> raises.
\<close>

definition mod_link :: "(string \<rightharpoonup> node) \<Rightarrow> error + hierarchy \<Rightarrow> edge \<Rightarrow> error + hierarchy" where
  "mod_link nm r e =
     (case r of
        Inl err \<Rightarrow> Inl err
      | Inr h \<Rightarrow>
          if etype e = Contains
          then (let s = source e; t = target e in
                if nm s = None then Inl (KeyError s)
                else if nm t = None then Inl (KeyError t)
                else Inr \<lparr>children = (children h)(s := children h s @ [t]),
                          parent = (parent h)(t \<mapsto> s)\<rparr>)
          else Inr h)"

definition mod_assemble :: "node list \<Rightarrow> edge list \<Rightarrow> error + hierarchy" where
  "mod_assemble ns es = foldl (mod_link (node_map ns)) (Inr empty_hierarchy) es"

text \<open>
  Line 206. The source iterates over a set, whose order Python leaves open; the list
  here is in the order of the keys of \<^verbatim>\<open>mod_node_map\<close>.
\<close>

definition sub_hierarchy :: "node list \<Rightarrow> hierarchy \<Rightarrow> string list" where
  "sub_hierarchy mnodes h = filter (\<lambda>k. parent h k = None) (dict_keys (map nid mnodes))"

record module_graph =
  mg_hierarchy :: "string list"
  mg_children :: "string \<Rightarrow> string list"
  mg_nodes :: "string \<rightharpoonup> node"
  mg_edges :: "edge list"

text \<open>Lines 189-207: what is dumped for one module.\<close>

definition module_output ::
  "(string \<Rightarrow> string) \<Rightarrow> node list \<Rightarrow> edge list \<Rightarrow> string \<Rightarrow> error + module_graph" where
  "module_output relpath ns es top_pkg =
     (let mnodes = module_nodes relpath ns top_pkg;
          medges = module_edges relpath ns es top_pkg
      in case mod_assemble mnodes medges of
           Inl err \<Rightarrow> Inl err
         | Inr h \<Rightarrow> Inr \<lparr>mg_hierarchy = sub_hierarchy mnodes h,
                         mg_children = children h,
                         mg_nodes = node_map mnodes,
                         mg_edges = rels medges\<rparr>)"

section \<open>Export\<close>

datatype content = GraphFile module_graph | IndexFile "string list" | EmptyFile

record run =
  written :: "(string \<times> content) list"
  raised :: "error option"

text \<open>
  Lines 185-214: one file per module, stopping at the first exception; the files written
  before it stay.
\<close>

fun write_modules ::
  "(string \<Rightarrow> string) \<Rightarrow> string \<Rightarrow> node list \<Rightarrow> edge list \<Rightarrow> (string \<times> content) list
     \<Rightarrow> string list \<Rightarrow> (string \<times> content) list \<times> error option" where
  "write_modules relpath out_dir ns es w [] = (w, None)"
| "write_modules relpath out_dir ns es w (top_pkg # rest) =
     (case module_output relpath ns es top_pkg of
        Inl err \<Rightarrow> (w, Some err)
      | Inr g \<Rightarrow>
          write_modules relpath out_dir ns es
            (w @ [(path_join out_dir (replace_dot top_pkg @ ''.json''), GraphFile g)]) rest)"

text \<open>
  \<^verbatim>\<open>main\<close>, with \<open>src_dir\<close> the absolute path of line 27 and \<open>tree\<close> the directory found
  there. A dumped hierarchy is the list of root objects together with the \<^verbatim>\<open>children\<close>
  lists that hang off them; the text that \<^verbatim>\<open>json.dump\<close> makes of it is not modelled.
  In the branch of lines 223-226 the output file is opened for writing, and the argument
  of \<^verbatim>\<open>json.dump\<close> is the name \<^verbatim>\<open>result\<close>, which no statement of the program binds.
\<close>

definition main :: "(string \<Rightarrow> string) \<Rightarrow> string \<Rightarrow> dir \<Rightarrow> string \<Rightarrow> run" where
  "main relpath src_dir tree output_file =
     (let st = build src_dir tree;
          h = assemble (nodes st) (edges st);
          rts = roots (nodes st) h;
          rs = rels (edges st)
      in if \<not> endswith output_file ''.json''
         then (let out_dir = rstrip_sep output_file;
                   written_modules = module_keys relpath (nodes st);
                   r = write_modules relpath out_dir (nodes st) (edges st) [] written_modules
               in case snd r of
                    Some err \<Rightarrow> \<lparr>written = fst r, raised = Some err\<rparr>
                  | None \<Rightarrow>
                      \<lparr>written = fst r @ [(path_join out_dir ''index.json'',
                                           IndexFile (sort written_modules))],
                       raised = None\<rparr>)
         else \<lparr>written = [(output_file, EmptyFile)], raised = Some (NameError ''result'')\<rparr>)"

section \<open>Notions used in the statements\<close>

text \<open>
  The test of lines 126-128: a \<^verbatim>\<open>contains\<close> edge both of whose ends are keys of the
  node map. These are the edges that the loop of line 125 acts on.
\<close>

definition linked :: "(string \<rightharpoonup> node) \<Rightarrow> edge \<Rightarrow> bool" where
  "linked nm e = (etype e = Contains \<and> nm (source e) \<noteq> None \<and> nm (target e) \<noteq> None)"

definition contains_into :: "(string \<rightharpoonup> node) \<Rightarrow> edge list \<Rightarrow> string \<Rightarrow> edge list" where
  "contains_into nm es t = filter (\<lambda>e. linked nm e \<and> target e = t) es"

definition contains_from :: "(string \<rightharpoonup> node) \<Rightarrow> edge list \<Rightarrow> string \<Rightarrow> edge list" where
  "contains_from nm es s = filter (\<lambda>e. linked nm e \<and> source e = s) es"

text \<open>
  The node objects that a dump of the root list reaches: the roots, and every element of
  the \<^verbatim>\<open>children\<close> list of a node that is reached.
\<close>

inductive_set exported :: "hierarchy \<Rightarrow> string list \<Rightarrow> string set"
  for h :: hierarchy and rts :: "string list" where
    root: "r \<in> set rts \<Longrightarrow> r \<in> exported h rts"
  | child: "p \<in> exported h rts \<Longrightarrow> c \<in> set (children h p) \<Longrightarrow> c \<in> exported h rts"

text \<open>Nodes of the shared identity space of classes, interfaces and stubs.\<close>

definition is_type :: "node \<Rightarrow> bool" where
  "is_type n = (ntype n = Class \<or> ntype n = Interface)"

text \<open>
  The ids of the nodes of that space, in the order of the node collection, and the
  invariant that ties them to \<^verbatim>\<open>seen['class']\<close>.
\<close>

definition type_ids :: "gstate \<Rightarrow> string list" where
  "type_ids st = map nid (filter is_type (nodes st))"

definition class_space :: "gstate \<Rightarrow> bool" where
  "class_space st = (distinct (type_ids st) \<and> set (type_ids st) = seen_class st)"

text \<open>The collections are append-only, and so is \<^verbatim>\<open>seen['class']\<close>.\<close>

definition grows :: "gstate \<Rightarrow> gstate \<Rightarrow> bool" where
  "grows st st' =
     ((\<exists>ns. nodes st' = nodes st @ ns) \<and> (\<exists>es. edges st' = edges st @ es)
      \<and> seen_class st \<subseteq> seen_class st')"

text \<open>
  Every id that was registered has a node, and both ends of every \<^verbatim>\<open>contains\<close> edge are
  ids of nodes.
\<close>

definition node_ids :: "gstate \<Rightarrow> string set" where
  "node_ids st = nid ` set (nodes st)"

definition closed :: "gstate \<Rightarrow> bool" where
  "closed st =
     (seen_package st \<union> seen_file st \<union> seen_class st \<union> seen_method st \<union> seen_field st
        \<subseteq> node_ids st
      \<and> (\<forall>e \<in> set (edges st). etype e = Contains
            \<longrightarrow> source e \<in> node_ids st \<and> target e \<in> node_ids st))"

text \<open>
  \<^verbatim>\<open>os.path.relpath(p, src_dir)\<close> for a path \<open>p\<close> that lies below the directory
  \<open>src_dir\<close>; the examples use it for the paths that the traversal of \<open>src_dir\<close> yields.
\<close>

definition relpath_below :: "string \<Rightarrow> string \<Rightarrow> string" where
  "relpath_below src_dir p = drop (length src_dir + 1) p"

text \<open>Example source trees.\<close>

definition class_decl :: "string \<Rightarrow> extends_ref \<Rightarrow> string list option \<Rightarrow> member list \<Rightarrow> type_decl" where
  "class_decl n ex im body = \<lparr>t_name = n, t_extends = ex, t_implements = im, t_body = body\<rparr>"

text \<open>Two files without a package, \<^verbatim>\<open>a/Foo.java\<close> and \<^verbatim>\<open>b/Foo.java\<close>, each declaring \<^verbatim>\<open>class Foo\<close>.\<close>

definition two_files_tree :: dir where
  "two_files_tree =
     Dir [(''a'', Dir [] [(''Foo.java'', Some (None, [], [class_decl ''Foo'' NoExtends None []]))]),
          (''b'', Dir [] [(''Foo.java'', Some (None, [], [class_decl ''Foo'' NoExtends None []]))])]
         []"

text \<open>
  The scenario of the specification: \<^verbatim>\<open>com/acme/Foo.java\<close> with
  \<^verbatim>\<open>package com.acme; class Foo extends Base implements Runnable { int x; void run() { Base.helper(); } }\<close>,
  here with the import \<^verbatim>\<open>import com.acme.Base;\<close> in front of the class.
\<close>

definition acme_tree :: dir where
  "acme_tree =
     Dir [(''com'', Dir [(''acme'', Dir []
        [(''Foo.java'', Some (Some ''com.acme'', [''com.acme.Base''],
           [class_decl ''Foo'' (ExtendsOne ''Base'') (Some [''Runnable''])
              [FieldDeclaration ''int'' [''x''],
               MethodDeclaration \<lparr>m_name = ''run'', m_parameters = [], m_return_type = None,
                                  m_body = True,
                                  m_invocations = [(Some ''Base'', ''helper'')]\<rparr>]]))])] [])] []"

text \<open>A file without a package in the directory \<^verbatim>\<open>com\<close> that imports \<^verbatim>\<open>com.x\<close>.\<close>

definition import_tree :: dir where
  "import_tree = Dir [(''com'', Dir [] [(''Foo.java'', Some (None, [''com.x''], []))])] []"

section \<open>Dictionaries\<close>

lemma dict_keys_aux:
  "set (foldl (\<lambda>acc k. if k \<in> set acc then acc else acc @ [k]) a ks) = set a \<union> set ks"
  by (induction ks arbitrary: a) auto

lemma dict_keys_aux_distinct:
  "distinct a \<Longrightarrow> distinct (foldl (\<lambda>acc k. if k \<in> set acc then acc else acc @ [k]) a ks)"
  by (induction ks arbitrary: a) auto

lemma set_dict_keys: "set (dict_keys ks) = set ks"
  by (simp add: dict_keys_def dict_keys_aux)

lemma distinct_dict_keys: "distinct (dict_keys ks)"
  by (simp add: dict_keys_def dict_keys_aux_distinct)

lemma node_map_None: "node_map ns k = None \<longleftrightarrow> k \<notin> nid ` set ns"
  by (simp add: node_map_def map_of_eq_None_iff image_image)

section \<open>The loop of the hierarchy assembler\<close>

lemma link_children:
  "children (link nm h e) s
     = children h s @ (if linked nm e \<and> source e = s then [target e] else [])"
  by (auto simp: link_def linked_def Let_def)

lemma link_parent:
  "parent (link nm h e) t
     = (if linked nm e \<and> target e = t then Some (source e) else parent h t)"
  by (auto simp: link_def linked_def Let_def)

lemma foldl_link_children:
  "children (foldl (link nm) h es) s = children h s @ map target (contains_from nm es s)"
  by (induction es arbitrary: h) (simp_all add: link_children contains_from_def)

lemma foldl_link_parent:
  "parent (foldl (link nm) h es) t
     = (if contains_into nm es t = [] then parent h t
        else Some (source (last (contains_into nm es t))))"
  by (induction es rule: rev_induct) (simp_all add: link_parent contains_into_def)

lemma assemble_children:
  "children (assemble ns es) s = map target (contains_from (node_map ns) es s)"
  by (simp add: assemble_def foldl_link_children empty_hierarchy_def)

lemma assemble_parent:
  "parent (assemble ns es) t
     = (if contains_into (node_map ns) es t = [] then None
        else Some (source (last (contains_into (node_map ns) es t))))"
  by (simp add: assemble_def foldl_link_parent empty_hierarchy_def)

lemma child_has_parent:
  assumes "c \<in> set (children (assemble ns es) p)"
  shows "parent (assemble ns es) c \<noteq> None"
proof -
  from assms obtain e where "e \<in> set es" "linked (node_map ns) e" "target e = c"
    by (auto simp: assemble_children contains_from_def)
  then have "e \<in> set (contains_into (node_map ns) es c)"
    by (simp add: contains_into_def)
  then have "contains_into (node_map ns) es c \<noteq> []" by auto
  then show ?thesis by (simp add: assemble_parent)
qed

section \<open>Parse failures\<close>

text \<open>
  What a file with the Java extension contributes when reading or parsing it fails: its
  File node, unless the path was seen before, and nothing else.
\<close>

lemma parse_failure_contribution:
  "endswith fname ''.java'' \<Longrightarrow>
     process_file root st (fname, None)
       = (if path_join root fname \<notin> seen_file st
          then (add_node ((mk_node (path_join root fname) fname File)
                            \<lparr>npath := Some (path_join root fname)\<rparr>) st)
                 \<lparr>seen_file := insert (path_join root fname) (seen_file st)\<rparr>
          else st)"
  by (simp add: process_file_def parse_java_file_def truthy_def Let_def)

text \<open>
  Claim C1: a file on which the parser fails contributes no node and no edge, in
  particular no File node. The program reports \<^verbatim>\<open>Skipping <path>: parse error\<close> for
  such a file, yet lines 43-45 run for it all the same: for the tree that holds the one
  unparseable file \<^verbatim>\<open>Bad.java\<close>, the node collection holds its File node.
\<close>

theorem parse_failure_file_node:
  "nodes (build ''/src'' (Dir [] [(''Bad.java'', None)]))
     = [(mk_node ''/src/Bad.java'' ''Bad.java'' File)\<lparr>npath := Some ''/src/Bad.java''\<rparr>]
   \<and> edges (build ''/src'' (Dir [] [(''Bad.java'', None)])) = []"
  by code_simp

section \<open>Single-file export\<close>

text \<open>Whatever the source tree, the branch of lines 223-226 ends in the exception.\<close>

lemma single_file_export_always_raises:
  "endswith output_file ''.json'' \<Longrightarrow>
     main relpath src_dir tree output_file
       = \<lparr>written = [(output_file, EmptyFile)], raised = Some (NameError ''result'')\<rparr>"
  by (simp add: main_def Let_def)

text \<open>
  Claim C2: with an output target that ends in \<^verbatim>\<open>.json\<close> the program writes the
  aggregate \<^verbatim>\<open>{hierarchy, relations}\<close> and completes. In the program that branch
  raises \<^verbatim>\<open>NameError\<close> after opening the file: nothing is dumped.
\<close>

theorem single_file_export_raises:
  "main relpath ''/src'' (Dir [] []) ''knowledge_graph.json''
     = \<lparr>written = [(''knowledge_graph.json'', EmptyFile)],
        raised = Some (NameError ''result'')\<rparr>"
  by (simp add: main_def endswith_def Let_def)

section \<open>The forest of the hierarchy assembler\<close>

lemma two_files_nodes:
  "map nid (nodes (build ''/src'' two_files_tree))
     = [''/src/a/Foo.java'', ''Foo'', ''/src/b/Foo.java'']"
  by code_simp

lemma two_files_edges:
  "edges (build ''/src'' two_files_tree)
     = [mk_edge ''/src/a/Foo.java'' ''Foo'' Contains, mk_edge ''/src/b/Foo.java'' ''Foo'' Contains]"
  by code_simp

text \<open>
  Claim C7 (last writer wins): when the edge list holds two \<^verbatim>\<open>contains\<close> edges into the
  same target \<open>t\<close> from different sources, the parent recorded for \<open>t\<close> is the source of
  the later one. The later edge \<open>e2\<close> is the last \<^verbatim>\<open>contains\<close> edge into \<open>t\<close>, and its
  two ends are nodes, which is the test of line 128; the edges that a traversal
  accumulates all pass that test (\<open>build_contains_closed\<close> below).
\<close>

theorem last_writer_wins:
  assumes es: "es = xs @ e1 # ys @ e2 # zs"
    and c1: "etype e1 = Contains" and c2: "etype e2 = Contains"
    and t1: "target e1 = t" and t2: "target e2 = t"
    and diff: "source e1 \<noteq> source e2"
    and later: "\<forall>e \<in> set zs. \<not> (etype e = Contains \<and> target e = t)"
    and src: "source e2 \<in> nid ` set ns" and tgt: "t \<in> nid ` set ns"
  shows "parent (assemble ns es) t = Some (source e2)"
proof -
  let ?nm = "node_map ns"
  have l2: "linked ?nm e2"
    using c2 t2 src tgt node_map_None [of ns "source e2"] node_map_None [of ns t]
    by (auto simp: linked_def)
  have z: "contains_into ?nm zs t = []"
    using later by (auto simp: contains_into_def linked_def filter_empty_conv)
  have "contains_into ?nm es t = contains_into ?nm (xs @ e1 # ys) t @ [e2]"
    using l2 t2 z by (simp add: es contains_into_def)
  then show ?thesis by (simp add: assemble_parent)
qed

theorem last_writer_wins_witness:
  "parent (assemble (nodes (build ''/src'' two_files_tree)) (edges (build ''/src'' two_files_tree))) ''Foo''
     = Some ''/src/b/Foo.java''"
proof -
  let ?e1 = "mk_edge ''/src/a/Foo.java'' ''Foo'' Contains"
  let ?e2 = "mk_edge ''/src/b/Foo.java'' ''Foo'' Contains"
  have es: "edges (build ''/src'' two_files_tree) = [] @ ?e1 # [] @ ?e2 # []"
    by (simp add: two_files_edges)
  have ids: "nid ` set (nodes (build ''/src'' two_files_tree))
               = {''/src/a/Foo.java'', ''Foo'', ''/src/b/Foo.java''}"
    using two_files_nodes by (metis list.set_map list.simps(15) empty_set) 
  show ?thesis
    using last_writer_wins [OF es, of "''Foo''" "nodes (build ''/src'' two_files_tree)"]
    by (simp add: mk_edge_def ids)
qed



text \<open>
  Claim C10: when some Package node has no parent after assembly, the roots are exactly
  the Package nodes without a parent, and a node of another kind without a parent is not
  reached from the roots at all.
\<close>

theorem package_roots_only:
  assumes k: "k \<in> nid ` set ns"
    and pk: "parent (assemble ns es) k = None"
    and tk: "map_option ntype (node_map ns k) = Some Package"
  shows "roots ns (assemble ns es)
           = filter (\<lambda>n. parent (assemble ns es) n = None
                          \<and> map_option ntype (node_map ns n) = Some Package)
                    (dict_keys (map nid ns))
         \<and> (\<forall>n. parent (assemble ns es) n = None
                 \<and> map_option ntype (node_map ns n) \<noteq> Some Package
               \<longrightarrow> n \<notin> exported (assemble ns es) (roots ns (assemble ns es)))"
proof -
  let ?h = "assemble ns es"
  let ?r = "filter (\<lambda>n. parent ?h n = None \<and> map_option ntype (node_map ns n) = Some Package)
              (dict_keys (map nid ns))"
  have "k \<in> set ?r" using k pk tk by (simp add: set_dict_keys)
  then have ne: "?r \<noteq> []" by (metis empty_iff empty_set)
  then have r: "roots ns ?h = ?r" by (simp add: roots_def Let_def)
  have "n \<notin> exported ?h ?r"
    if "parent ?h n = None" "map_option ntype (node_map ns n) \<noteq> Some Package" for n
  proof
    assume "n \<in> exported ?h ?r"
    then show False
    proof cases
      case root
      with that show False by auto
    next
      case (child p)
      with that child_has_parent show False by blast
    qed
  qed
  with r show ?thesis by simp
qed

theorem package_roots_only_witness:
  "roots (nodes (build ''/src'' import_tree))
     (assemble (nodes (build ''/src'' import_tree)) (edges (build ''/src'' import_tree)))
     = [''com.x'']
   \<and> ''/src/com/Foo.java''
       \<notin> exported (assemble (nodes (build ''/src'' import_tree)) (edges (build ''/src'' import_tree)))
            (roots (nodes (build ''/src'' import_tree))
               (assemble (nodes (build ''/src'' import_tree)) (edges (build ''/src'' import_tree))))"
proof -
  let ?ns = "nodes (build ''/src'' import_tree)"
  let ?es = "edges (build ''/src'' import_tree)"
  have h1: "''com.x'' \<in> nid ` set ?ns" by code_simp
  have h2: "parent (assemble ?ns ?es) ''com.x'' = None" by code_simp
  have h3: "map_option ntype (node_map ?ns ''com.x'') = Some Package" by code_simp
  have h4: "parent (assemble ?ns ?es) ''/src/com/Foo.java'' = None" by code_simp
  have h5: "map_option ntype (node_map ?ns ''/src/com/Foo.java'') \<noteq> Some Package" by code_simp
  have h6: "roots ?ns (assemble ?ns ?es) = [''com.x'']" by code_simp
  from package_roots_only [OF h1 h2 h3] h4 h5 h6 show ?thesis by blast
qed

section \<open>Modules\<close>

lemma module_node_ids_iff:
  "k \<in> module_node_ids relpath ns m \<longleftrightarrow> (\<exists>n \<in> set ns. module_id relpath n = m \<and> nid n = k)"
  by (auto simp: module_node_ids_def module_nodes_def)

lemma node_map_module_nodes:
  "node_map (module_nodes relpath ns m) k \<noteq> None \<longleftrightarrow> k \<in> module_node_ids relpath ns m"
  using node_map_None [of "module_nodes relpath ns m" k]
  by (auto simp: module_node_ids_def)

lemma mod_link_link:
  "nm (source e) \<noteq> None \<Longrightarrow> nm (target e) \<noteq> None \<Longrightarrow> mod_link nm (Inr h) e = Inr (link nm h e)"
  by (auto simp: mod_link_def link_def Let_def)

lemma foldl_mod_link:
  "\<forall>e \<in> set es. nm (source e) \<noteq> None \<and> nm (target e) \<noteq> None
     \<Longrightarrow> foldl (mod_link nm) (Inr h) es = Inr (foldl (link nm) h es)"
  by (induction es arbitrary: h) (simp_all add: mod_link_link)

lemma mod_assemble_module:
  "mod_assemble (module_nodes relpath ns m) (module_edges relpath ns es m)
     = Inr (assemble (module_nodes relpath ns m) (module_edges relpath ns es m))"
  unfolding mod_assemble_def assemble_def
proof (rule foldl_mod_link, intro ballI conjI)
  fix e
  assume "e \<in> set (module_edges relpath ns es m)"
  then have st: "source e \<in> module_node_ids relpath ns m" "target e \<in> module_node_ids relpath ns m"
    by (simp_all add: module_edges_def)
  from st(1) show "node_map (module_nodes relpath ns m) (source e) \<noteq> None"
    by (simp only: node_map_module_nodes)
  from st(2) show "node_map (module_nodes relpath ns m) (target e) \<noteq> None"
    by (simp only: node_map_module_nodes)
qed

lemma write_modules_ok:
  "snd (write_modules relpath out_dir ns es w ms) = None"
  by (induction ms arbitrary: w) (simp_all add: module_output_def mod_assemble_module Let_def)

text \<open>The modular export raises nothing: every module and the index are written.\<close>

lemma modular_export_completes:
  "\<not> endswith output_file ''.json'' \<Longrightarrow> raised (main relpath src_dir tree output_file) = None"
  by (simp add: main_def Let_def write_modules_ok)

text \<open>
  Claim C4, as amended: for every module the dump succeeds, its parent and child links
  and its relation list are those of the hierarchy assembler run on the nodes and edges
  of the module, and its roots are all the nodes of the module that have no parent inside
  the module, of whatever kind. Line 206 has no preference for Package nodes.
\<close>

theorem module_forest:
  "module_output relpath ns es m
     = Inr \<lparr>mg_hierarchy =
              filter (\<lambda>k. parent (assemble (module_nodes relpath ns m)
                                            (module_edges relpath ns es m)) k = None)
                     (dict_keys (map nid (module_nodes relpath ns m))),
            mg_children = children (assemble (module_nodes relpath ns m)
                                             (module_edges relpath ns es m)),
            mg_nodes = node_map (module_nodes relpath ns m),
            mg_edges = rels (module_edges relpath ns es m)\<rparr>"
  by (simp add: module_output_def mod_assemble_module sub_hierarchy_def Let_def)

text \<open>
  Claim C4 as stated fails: for a file \<^verbatim>\<open>com/Foo.java\<close> without a package that imports
  \<^verbatim>\<open>com.x\<close>, the module \<^verbatim>\<open>com\<close> holds a Package node without a parent, and still its
  roots are the File node and the Package node, where the assembler of lines 131-133 on
  the same nodes and edges yields the Package node alone.
\<close>

theorem module_roots_not_package_only:
  "map_sum id mg_hierarchy
     (module_output (relpath_below ''/src'') (nodes (build ''/src'' import_tree))
        (edges (build ''/src'' import_tree)) ''com'')
     = Inr [''/src/com/Foo.java'', ''com.x'']
   \<and> roots (module_nodes (relpath_below ''/src'') (nodes (build ''/src'' import_tree)) ''com'')
        (assemble (module_nodes (relpath_below ''/src'') (nodes (build ''/src'' import_tree)) ''com'')
                  (module_edges (relpath_below ''/src'') (nodes (build ''/src'' import_tree))
                     (edges (build ''/src'' import_tree)) ''com''))
      = [''com.x'']"
  by code_simp

text \<open>
  Claim C5, as amended: the node-id sets of the modules cover the set of all node ids,
  and the node records of two distinct modules are disjoint; the node-id sets of two
  distinct modules are disjoint when no id occurs twice in the node collection.
\<close>

theorem module_partition:
  "(\<Union>m \<in> set (module_keys relpath ns). module_node_ids relpath ns m) = nid ` set ns
   \<and> (m1 \<noteq> m2 \<longrightarrow> set (module_nodes relpath ns m1) \<inter> set (module_nodes relpath ns m2) = {})
   \<and> (m1 \<noteq> m2 \<and> distinct (map nid ns)
        \<longrightarrow> module_node_ids relpath ns m1 \<inter> module_node_ids relpath ns m2 = {})"
proof (intro conjI impI)
  show "(\<Union>m \<in> set (module_keys relpath ns). module_node_ids relpath ns m) = nid ` set ns"
    by (fastforce simp: module_keys_def set_dict_keys module_node_ids_iff)
next
  assume "m1 \<noteq> m2"
  then show "set (module_nodes relpath ns m1) \<inter> set (module_nodes relpath ns m2) = {}"
    by (auto simp: module_nodes_def)
next
  assume a: "m1 \<noteq> m2 \<and> distinct (map nid ns)"
  then have inj: "inj_on nid (set ns)" by (simp add: distinct_map)
  show "module_node_ids relpath ns m1 \<inter> module_node_ids relpath ns m2 = {}"
  proof (rule ccontr)
    assume "module_node_ids relpath ns m1 \<inter> module_node_ids relpath ns m2 \<noteq> {}"
    then obtain k where k1: "k \<in> module_node_ids relpath ns m1"
      and k2: "k \<in> module_node_ids relpath ns m2" by blast
    from k1 obtain x where x: "x \<in> set ns" "module_id relpath x = m1" "nid x = k"
      unfolding module_node_ids_iff by blast
    from k2 obtain y where y: "y \<in> set ns" "module_id relpath y = m2" "nid y = k"
      unfolding module_node_ids_iff by blast
    from inj x(3) y(3) x(1) y(1) have "x = y" by (simp add: inj_on_def)
    with x(2) y(2) a show False by simp
  qed
qed

theorem module_partition_witness:
  "''a'' \<noteq> ''b''
   \<and> distinct (map nid (nodes (build ''/src'' two_files_tree)))
   \<and> (\<Union>m \<in> set (module_keys (relpath_below ''/src'') (nodes (build ''/src'' two_files_tree))).
         module_node_ids (relpath_below ''/src'') (nodes (build ''/src'' two_files_tree)) m)
       = nid ` set (nodes (build ''/src'' two_files_tree))
   \<and> set (module_nodes (relpath_below ''/src'') (nodes (build ''/src'' two_files_tree)) ''a'')
       \<inter> set (module_nodes (relpath_below ''/src'') (nodes (build ''/src'' two_files_tree)) ''b'') = {}
   \<and> module_node_ids (relpath_below ''/src'') (nodes (build ''/src'' two_files_tree)) ''a''
       \<inter> module_node_ids (relpath_below ''/src'') (nodes (build ''/src'' two_files_tree)) ''b'' = {}"
proof -
  have d: "distinct (map nid (nodes (build ''/src'' two_files_tree)))"
    by (simp add: two_files_nodes)
  have n: "''a'' \<noteq> ''b''" by simp
  from module_partition [of "relpath_below ''/src''" "nodes (build ''/src'' two_files_tree)" "''a''" "''b''"]
    d n show ?thesis by blast
qed

text \<open>
  Claim C5 as stated fails: ids are kept apart for each kind only. In the scenario of the
  specification with \<^verbatim>\<open>import com.acme.Base;\<close> the id \<^verbatim>\<open>com.acme.Base\<close> belongs to a
  Package node, of module \<^verbatim>\<open>com\<close>, and to the stub of the superclass, of module \<^verbatim>\<open>root\<close>.
\<close>

theorem module_ids_overlap:
  "''com.acme.Base'' \<in> module_node_ids (relpath_below ''/src'') (nodes (build ''/src'' acme_tree)) ''com''
   \<and> ''com.acme.Base'' \<in> module_node_ids (relpath_below ''/src'') (nodes (build ''/src'' acme_tree)) ''root''"
  by code_simp

text \<open>
  Claim C6, as amended: an edge such that every node with its source id and every node
  with its target id resolve to different module keys is in the edge list of no module;
  it is in the aggregate relation list exactly when its kind is not \<^verbatim>\<open>contains\<close>.
\<close>

theorem cross_module_edge:
  assumes e: "e \<in> set es"
    and cross: "\<forall>a \<in> set ns. \<forall>b \<in> set ns.
                  nid a = source e \<and> nid b = target e \<longrightarrow> module_id relpath a \<noteq> module_id relpath b"
  shows "e \<notin> set (module_edges relpath ns es m)
         \<and> (\<forall>g. module_output relpath ns es m = Inr g \<longrightarrow> e \<notin> set (mg_edges g))
         \<and> (e \<in> set (rels es) \<longleftrightarrow> etype e \<noteq> Contains)"
proof -
  have 1: "e \<notin> set (module_edges relpath ns es m)"
  proof
    assume "e \<in> set (module_edges relpath ns es m)"
    then have st: "source e \<in> module_node_ids relpath ns m" "target e \<in> module_node_ids relpath ns m"
      by (simp_all add: module_edges_def)
    from st obtain a where a: "a \<in> set ns" "module_id relpath a = m" "nid a = source e"
      unfolding module_node_ids_iff by blast
    from st obtain b where b: "b \<in> set ns" "module_id relpath b = m" "nid b = target e"
      unfolding module_node_ids_iff by blast
    from cross a(1) b(1) a(3) b(3) have "module_id relpath a \<noteq> module_id relpath b" by blast
    with a(2) b(2) show False by simp
  qed
  have 2: "e \<notin> set (mg_edges g)" if "module_output relpath ns es m = Inr g" for g
    using that 1 by (auto simp: module_output_def mod_assemble_module rels_def Let_def)
  have 3: "e \<in> set (rels es) \<longleftrightarrow> etype e \<noteq> Contains"
    using e by (simp add: rels_def)
  from 1 2 3 show ?thesis by blast
qed

theorem cross_module_edge_witness:
  "mk_edge ''com.acme.Foo'' ''com.acme.Runnable'' Implements \<in> set (edges (build ''/src'' acme_tree))
   \<and> mk_edge ''com.acme.Foo'' ''com.acme.Runnable'' Implements
       \<notin> set (module_edges (relpath_below ''/src'') (nodes (build ''/src'' acme_tree))
                 (edges (build ''/src'' acme_tree)) ''com'')
   \<and> mk_edge ''com.acme.Foo'' ''com.acme.Runnable'' Implements
       \<in> set (rels (edges (build ''/src'' acme_tree)))"
proof -
  let ?e = "mk_edge ''com.acme.Foo'' ''com.acme.Runnable'' Implements"
  let ?ns = "nodes (build ''/src'' acme_tree)"
  have e: "?e \<in> set (edges (build ''/src'' acme_tree))" by code_simp
  have cross: "\<forall>a \<in> set ?ns. \<forall>b \<in> set ?ns. nid a = source ?e \<and> nid b = target ?e
                 \<longrightarrow> module_id (relpath_below ''/src'') a \<noteq> module_id (relpath_below ''/src'') b"
    by code_simp
  have k: "etype ?e \<noteq> Contains" by (simp add: mk_edge_def)
  from cross_module_edge [OF e cross, of "''com''"] e k show ?thesis by blast
qed

text \<open>
  Claim C6 as stated fails for \<^verbatim>\<open>contains\<close> edges: in the scenario of the specification
  the class \<^verbatim>\<open>com.acme.Foo\<close> is of module \<^verbatim>\<open>com\<close> and its field \<^verbatim>\<open>com.acme.Foo.x\<close> of module
  \<^verbatim>\<open>root\<close>, and the edge between them is not in the aggregate relation list.
\<close>

theorem cross_module_contains_edge:
  "mk_edge ''com.acme.Foo'' ''com.acme.Foo.x'' Contains \<in> set (edges (build ''/src'' acme_tree))
   \<and> map (module_id (relpath_below ''/src''))
         (filter (\<lambda>n. nid n = ''com.acme.Foo'') (nodes (build ''/src'' acme_tree))) = [''com'']
   \<and> map (module_id (relpath_below ''/src''))
         (filter (\<lambda>n. nid n = ''com.acme.Foo.x'') (nodes (build ''/src'' acme_tree))) = [''root'']
   \<and> mk_edge ''com.acme.Foo'' ''com.acme.Foo.x'' Contains
       \<notin> set (rels (edges (build ''/src'' acme_tree)))"
  by code_simp

section \<open>The identity space of classes and interfaces\<close>

lemma foldl_preserves:
  assumes "\<And>s x. P s \<Longrightarrow> P (f s x)" and "P s"
  shows "P (foldl f s xs)"
  using assms(2) by (induction xs arbitrary: s) (simp_all add: assms(1))




lemma class_space_seen [simp]:
  "class_space (st\<lparr>seen_package := a\<rparr>) = class_space st"
  "class_space (st\<lparr>seen_file := b\<rparr>) = class_space st"
  "class_space (st\<lparr>seen_method := c\<rparr>) = class_space st"
  "class_space (st\<lparr>seen_field := d\<rparr>) = class_space st"
  by (simp_all add: class_space_def type_ids_def)

lemma is_type_mk_node [simp]:
  "is_type (mk_node i n k) \<longleftrightarrow> k = Class \<or> k = Interface"
  "is_type (x\<lparr>npath := p\<rparr>) = is_type x"
  "is_type (x\<lparr>npackage := q\<rparr>) = is_type x"
  "is_type (x\<lparr>nfile := r\<rparr>) = is_type x"
  "is_type (x\<lparr>nextends := s\<rparr>) = is_type x"
  "is_type (x\<lparr>nimplements := t\<rparr>) = is_type x"
  "is_type (x\<lparr>ndatatype := u\<rparr>) = is_type x"
  "is_type (x\<lparr>nclass := v\<rparr>) = is_type x"
  "is_type (x\<lparr>nsignature := w\<rparr>) = is_type x"
  "is_type (x\<lparr>nreturn_type := y\<rparr>) = is_type x"
  by (simp_all add: is_type_def mk_node_def)

lemma nid_mk_node [simp]:
  "nid (mk_node i n k) = i"
  by (simp add: mk_node_def)












lemma grows_refl: "grows st st"
  by (simp add: grows_def)

lemma grows_add_edge: "grows a st \<Longrightarrow> grows a (add_edge e st)"
  by (auto simp: grows_def add_edge_def)

lemma grows_add_node: "grows a st \<Longrightarrow> grows a (add_node n st)"
  by (auto simp: grows_def add_node_def)

lemma grows_seen [simp]:
  "grows a (st\<lparr>seen_package := p\<rparr>) = grows a st"
  "grows a (st\<lparr>seen_file := q\<rparr>) = grows a st"
  "grows a (st\<lparr>seen_method := r\<rparr>) = grows a st"
  "grows a (st\<lparr>seen_field := s\<rparr>) = grows a st"
  by (simp_all add: grows_def)

lemma grows_seen_class:
  "grows a st \<Longrightarrow> grows a ((add_node n st)\<lparr>seen_class := insert x (seen_class st)\<rparr>)"
  by (auto simp: grows_def add_node_def)


lemma grows_add_reference: "grows a st \<Longrightarrow> grows a (add_reference k ek pkg fqcn st p)"
  by (simp add: add_reference_def Let_def grows_add_edge grows_seen_class)

lemma grows_add_declarator: "grows a st \<Longrightarrow> grows a (add_declarator fqcn tname st d)"
  by (simp add: add_declarator_def Let_def grows_add_edge grows_add_node)

lemma grows_add_call: "grows a st \<Longrightarrow> grows a (add_call mid st iv)"
  by (simp add: add_call_def Let_def grows_add_edge)

lemma grows_add_method: "grows a st \<Longrightarrow> grows a (add_method fqcn st m)"
  by (simp add: add_method_def Let_def grows_add_edge grows_add_node
      foldl_preserves [where P = "grows a", rotated] grows_add_call)

lemma grows_add_member: "grows a st \<Longrightarrow> grows a (add_member fqcn st m)"
  by (cases m)
     (simp_all add: grows_add_method grows_add_declarator
        foldl_preserves [where P = "grows a", rotated])

lemma grows_references:
  "grows a s \<Longrightarrow> grows a (foldl (add_reference k ek pkg fq) s ps)"
  by (rule foldl_preserves [where P = "grows a"]) (simp_all add: grows_add_reference)

lemma grows_members: "grows a s \<Longrightarrow> grows a (foldl (add_member fq) s ms)"
  by (rule foldl_preserves [where P = "grows a"]) (simp_all add: grows_add_member)




section \<open>Qualified names\<close>

lemma grows_edges_subset: "grows a b \<Longrightarrow> set (edges a) \<subseteq> set (edges b)"
  by (auto simp: grows_def)

lemma reference_edge:
  "p \<in> set ps \<Longrightarrow>
     mk_edge fq (qualify pkg p) ek \<in> set (edges (foldl (add_reference k ek pkg fq) s ps))"
proof (induction ps arbitrary: s)
  case Nil
  then show ?case by simp
next
  case (Cons x xs)
  show ?case
  proof (cases "p = x")
    case True
    have "mk_edge fq (qualify pkg x) ek \<in> set (edges (add_reference k ek pkg fq s x))"
      by (simp add: add_reference_def add_edge_def add_node_def Let_def)
    moreover have "grows (add_reference k ek pkg fq s x)
                     (foldl (add_reference k ek pkg fq) (add_reference k ek pkg fq s x) xs)"
      by (rule grows_references) (rule grows_refl)
    ultimately show ?thesis using True grows_edges_subset by fastforce
  next
    case False
    with Cons.prems have "p \<in> set xs" by simp
    then show ?thesis using Cons.IH by simp
  qed
qed

lemma qualify_parsed:
  "qualify (fst (parse_java_file (Some (package, imports, types)))) x
     = (case package of None \<Rightarrow> x | Some P \<Rightarrow> if P = [] then x else P @ ''.'' @ x)"
  by (simp add: qualify_def parse_java_file_def truthy_def str_of_def split: option.splits)

lemma process_class_shape:
  fixes path pkg st cls
  defines "fq \<equiv> qualify pkg (t_name cls)"
  defines "st' \<equiv> process_class path pkg st cls"
  shows "(\<exists>es. edges st' = edges st @ mk_edge path fq Contains # es)"
    and "fq \<notin> seen_class st \<Longrightarrow>
           (\<exists>ns. nodes st' = nodes st @
              ((mk_node fq (t_name cls) Class)
                 \<lparr>npackage := pkg, nfile := Some path,
                  nextends := extends_entry (t_extends cls),
                  nimplements := implements_entry (t_implements cls)\<rparr>) # ns)"
    and "fq \<in> seen_class st'"
    and "p \<in> set (extends_names (t_extends cls))
           \<Longrightarrow> mk_edge fq (qualify pkg p) Extends \<in> set (edges st')"
    and "i \<in> set (implements_names (t_implements cls))
           \<Longrightarrow> mk_edge fq (qualify pkg i) Implements \<in> set (edges st')"
proof -
  define entry where "entry = (mk_node fq (t_name cls) Class)
                 \<lparr>npackage := pkg, nfile := Some path,
                  nextends := extends_entry (t_extends cls),
                  nimplements := implements_entry (t_implements cls)\<rparr>"
  define st1 where "st1 = (if fq \<notin> seen_class st
                            then (add_node entry st)\<lparr>seen_class := insert fq (seen_class st)\<rparr>
                            else st)"
  define st2 where "st2 = add_edge (mk_edge path fq Contains) st1"
  define st3 where "st3 = foldl (add_reference Class Extends pkg fq) st2 (extends_names (t_extends cls))"
  define st4 where "st4 = foldl (add_reference Interface Implements pkg fq) st3
                            (implements_names (t_implements cls))"
  have eq: "st' = foldl (add_member fq) st4 (t_body cls)"
    by (simp add: st'_def process_class_def Let_def fq_def entry_def st1_def st2_def st3_def st4_def)
  have g23: "grows st2 st3" unfolding st3_def by (rule grows_references) (rule grows_refl)
  have g34: "grows st3 st4" unfolding st4_def by (rule grows_references) (rule grows_refl)
  have g4: "grows st4 st'" unfolding eq by (rule grows_members) (rule grows_refl)
  have e2: "edges st2 = edges st @ [mk_edge path fq Contains]"
    by (simp add: st2_def st1_def add_edge_def add_node_def)
  have s2: "fq \<in> seen_class st2"
    by (simp add: st2_def st1_def add_edge_def add_node_def)
  from e2 g23 g34 g4 show "\<exists>es. edges st' = edges st @ mk_edge path fq Contains # es"
    by (auto simp: grows_def)
  from s2 g23 g34 g4 show "fq \<in> seen_class st'"
    by (auto simp: grows_def)
  {
    assume "fq \<notin> seen_class st"
    then have "nodes st2 = nodes st @ [entry]"
      by (simp add: st2_def st1_def add_edge_def add_node_def)
    with g23 g34 g4 show "\<exists>ns. nodes st' = nodes st @ entry # ns"
      by (auto simp: grows_def)
  }
  {
    assume "p \<in> set (extends_names (t_extends cls))"
    then have "mk_edge fq (qualify pkg p) Extends \<in> set (edges st3)"
      unfolding st3_def by (rule reference_edge)
    with g34 g4 show "mk_edge fq (qualify pkg p) Extends \<in> set (edges st')"
      using grows_edges_subset by blast
  }
  {
    assume "i \<in> set (implements_names (t_implements cls))"
    then have "mk_edge fq (qualify pkg i) Implements \<in> set (edges st4)"
      unfolding st4_def by (rule reference_edge)
    with g4 show "mk_edge fq (qualify pkg i) Implements \<in> set (edges st')"
      using grows_edges_subset by blast
  }
qed

text \<open>
  Claim C8: the id of a type declaration is its simple name when the compilation unit
  has no package, and the package name, a dot and the simple name when it has one; the
  references of its \<^verbatim>\<open>extends\<close> and \<^verbatim>\<open>implements\<close> clauses are qualified in the same way
  with the package of the declaring unit. The id is read off the \<^verbatim>\<open>contains\<close> edge from
  the file, the first edge that the declaration appends, and off the node appended for a
  declaration whose id is new.
\<close>

theorem qualification_rule:
  "let pkg = fst (parse_java_file (Some (package, imports, types)));
       st' = process_class path pkg st cls;
       e = edges st' ! length (edges st);
       fqcn = target e;
       q = (\<lambda>x. case package of None \<Rightarrow> x | Some P \<Rightarrow> if P = [] then x else P @ ''.'' @ x)
   in source e = path \<and> etype e = Contains
      \<and> (package = None \<longrightarrow> fqcn = t_name cls)
      \<and> (\<forall>P. package = Some P \<and> P \<noteq> [] \<longrightarrow> fqcn = P @ ''.'' @ t_name cls)
      \<and> (fqcn \<notin> seen_class st \<longrightarrow>
            nid (nodes st' ! length (nodes st)) = fqcn
            \<and> nname (nodes st' ! length (nodes st)) = t_name cls
            \<and> ntype (nodes st' ! length (nodes st)) = Class)
      \<and> (\<forall>p \<in> set (extends_names (t_extends cls)). mk_edge fqcn (q p) Extends \<in> set (edges st'))
      \<and> (\<forall>i \<in> set (implements_names (t_implements cls)).
            mk_edge fqcn (q i) Implements \<in> set (edges st'))"
proof -
  define pkg where "pkg = fst (parse_java_file (Some (package, imports, types)))"
  define st' where "st' = process_class path pkg st cls"
  define fq where "fq = qualify pkg (t_name cls)"
  define q where "q = (\<lambda>x. case package of None \<Rightarrow> x | Some P \<Rightarrow> if P = [] then x else P @ ''.'' @ x)"
  have q: "qualify pkg x = q x" for x
    by (simp add: pkg_def q_def qualify_parsed)
  from process_class_shape(1) [of path pkg st cls]
  obtain es where es: "edges st' = edges st @ mk_edge path fq Contains # es"
    unfolding st'_def fq_def by blast
  then have e: "edges st' ! length (edges st) = mk_edge path fq Contains"
    by simp
  have n: "nid (nodes st' ! length (nodes st)) = fq
           \<and> nname (nodes st' ! length (nodes st)) = t_name cls
           \<and> ntype (nodes st' ! length (nodes st)) = Class" if "fq \<notin> seen_class st"
  proof -
    from process_class_shape(2) [of pkg cls st path] that
    obtain ns where "nodes st' = nodes st @
              ((mk_node fq (t_name cls) Class)
                 \<lparr>npackage := pkg, nfile := Some path,
                  nextends := extends_entry (t_extends cls),
                  nimplements := implements_entry (t_implements cls)\<rparr>) # ns"
      unfolding st'_def fq_def by blast
    then show ?thesis by (simp add: mk_node_def)
  qed
  have x: "mk_edge fq (q p) Extends \<in> set (edges st')"
    if "p \<in> set (extends_names (t_extends cls))" for p
    using process_class_shape(4) [OF that, of pkg path st] by (simp add: st'_def fq_def q)
  have i: "mk_edge fq (q i) Implements \<in> set (edges st')"
    if "i \<in> set (implements_names (t_implements cls))" for i
    using process_class_shape(5) [OF that, of pkg path st] by (simp add: st'_def fq_def q)
  have t: "target (mk_edge path fq Contains) = fq" "source (mk_edge path fq Contains) = path"
    "etype (mk_edge path fq Contains) = Contains"
    by (simp_all add: mk_edge_def)
  have none: "package = None \<Longrightarrow> fq = t_name cls"
    by (simp add: fq_def q q_def)
  have some: "package = Some P \<Longrightarrow> P \<noteq> [] \<Longrightarrow> fq = P @ ''.'' @ t_name cls" for P
    by (simp add: fq_def q q_def)
  show ?thesis
    unfolding Let_def pkg_def [symmetric] st'_def [symmetric] q_def [symmetric] e t
    using n x i none some by blast
qed

theorem qualification_rule_witness:
  "target (edges (process_class ''/src/com/acme/Foo.java'' (Some ''com.acme'') init_state
      (class_decl ''Foo'' (ExtendsOne ''Base'') (Some [''Runnable'']) [])) ! 0) = ''com.acme.Foo''
   \<and> mk_edge ''com.acme.Foo'' ''com.acme.Base'' Extends
       \<in> set (edges (process_class ''/src/com/acme/Foo.java'' (Some ''com.acme'') init_state
            (class_decl ''Foo'' (ExtendsOne ''Base'') (Some [''Runnable'']) [])))
   \<and> mk_edge ''com.acme.Foo'' ''com.acme.Runnable'' Implements
       \<in> set (edges (process_class ''/src/com/acme/Foo.java'' (Some ''com.acme'') init_state
            (class_decl ''Foo'' (ExtendsOne ''Base'') (Some [''Runnable'']) [])))"
proof -
  let ?cls = "class_decl ''Foo'' (ExtendsOne ''Base'') (Some [''Runnable'']) []"
  have p: "fst (parse_java_file (Some (Some ''com.acme'', [], []))) = Some ''com.acme''"
    by (simp add: parse_java_file_def)
  have len: "length (edges init_state) = 0" by (simp add: init_state_def)
  have tn: "t_name ?cls = ''Foo''" by (simp add: class_decl_def)
  have ex: "extends_names (t_extends ?cls) = [''Base'']" by (simp add: class_decl_def)
  have im: "implements_names (t_implements ?cls) = [''Runnable'']"
    by (simp add: class_decl_def implements_names_def)
  from qualification_rule [of "Some ''com.acme''" "[]" "[]" "''/src/com/acme/Foo.java''"
      init_state ?cls]
  show ?thesis by (auto simp add: Let_def p len tn ex im)
qed

section \<open>The ends of the contains edges\<close>

text \<open>
  In every run both ends of every \<^verbatim>\<open>contains\<close> edge are ids of nodes, so that the test of
  line 128 holds for each of them: on the collections that the traversal accumulates, the
  last \<^verbatim>\<open>contains\<close> edge into a node decides its parent without any further condition.
\<close>

lemma closed_add_edge:
  "closed st \<Longrightarrow> k = Contains \<longrightarrow> s \<in> node_ids st \<and> t \<in> node_ids st
     \<Longrightarrow> closed (add_edge (mk_edge s t k) st)"
  by (auto simp: closed_def node_ids_def add_edge_def mk_edge_def)

lemma node_ids_add_edge [simp]: "node_ids (add_edge e st) = node_ids st"
  by (simp add: node_ids_def add_edge_def)

lemma seen_add_edge [simp]:
  "seen_package (add_edge e st) = seen_package st"
  "seen_file (add_edge e st) = seen_file st"
  "seen_class (add_edge e st) = seen_class st"
  "seen_method (add_edge e st) = seen_method st"
  "seen_field (add_edge e st) = seen_field st"
  by (simp_all add: add_edge_def)

lemma closed_register:
  assumes "closed st"
  shows "closed ((add_node n st)\<lparr>seen_package := insert (nid n) (seen_package st)\<rparr>)"
    and "closed ((add_node n st)\<lparr>seen_file := insert (nid n) (seen_file st)\<rparr>)"
    and "closed ((add_node n st)\<lparr>seen_class := insert (nid n) (seen_class st)\<rparr>)"
    and "closed ((add_node n st)\<lparr>seen_method := insert (nid n) (seen_method st)\<rparr>)"
    and "closed ((add_node n st)\<lparr>seen_field := insert (nid n) (seen_field st)\<rparr>)"
  using assms by (auto simp: closed_def node_ids_def add_node_def)

lemma node_ids_register [simp]:
  "node_ids ((add_node n st)\<lparr>seen_package := a\<rparr>) = insert (nid n) (node_ids st)"
  "node_ids ((add_node n st)\<lparr>seen_file := a\<rparr>) = insert (nid n) (node_ids st)"
  "node_ids ((add_node n st)\<lparr>seen_class := a\<rparr>) = insert (nid n) (node_ids st)"
  "node_ids ((add_node n st)\<lparr>seen_method := a\<rparr>) = insert (nid n) (node_ids st)"
  "node_ids ((add_node n st)\<lparr>seen_field := a\<rparr>) = insert (nid n) (node_ids st)"
  by (simp_all add: node_ids_def add_node_def)

lemma seen_class_register [simp]:
  "seen_class ((add_node n st)\<lparr>seen_package := a\<rparr>) = seen_class st"
  "seen_class ((add_node n st)\<lparr>seen_method := a\<rparr>) = seen_class st"
  "seen_class ((add_node n st)\<lparr>seen_field := a\<rparr>) = seen_class st"
  "seen_file ((add_node n st)\<lparr>seen_package := a\<rparr>) = seen_file st"
  "seen_file ((add_node n st)\<lparr>seen_class := a\<rparr>) = seen_file st"
  "seen_file ((add_node n st)\<lparr>seen_method := a\<rparr>) = seen_file st"
  "seen_file ((add_node n st)\<lparr>seen_field := a\<rparr>) = seen_file st"
  by (simp_all add: add_node_def)

lemma closed_seen:
  "closed st \<Longrightarrow> x \<in> seen_package st \<Longrightarrow> x \<in> node_ids st"
  "closed st \<Longrightarrow> x \<in> seen_file st \<Longrightarrow> x \<in> node_ids st"
  "closed st \<Longrightarrow> x \<in> seen_class st \<Longrightarrow> x \<in> node_ids st"
  "closed st \<Longrightarrow> x \<in> seen_method st \<Longrightarrow> x \<in> node_ids st"
  "closed st \<Longrightarrow> x \<in> seen_field st \<Longrightarrow> x \<in> node_ids st"
  by (auto simp: closed_def)

lemma closed_add_import:
  "closed st \<and> path \<in> seen_file st
     \<Longrightarrow> closed (add_import path st imp) \<and> path \<in> seen_file (add_import path st imp)"
  using closed_register(1) [of st "mk_node imp imp Package"]
  by (simp add: add_import_def Let_def closed_add_edge)

lemma closed_add_reference:
  "ek \<noteq> Contains \<Longrightarrow> closed st \<and> fq \<in> seen_class st
     \<Longrightarrow> closed (add_reference k ek pkg fq st p) \<and> fq \<in> seen_class (add_reference k ek pkg fq st p)"
  using closed_register(3) [of st "mk_node (qualify pkg p) p k"]
  by (simp add: add_reference_def Let_def closed_add_edge)

lemma closed_add_declarator:
  assumes "closed st \<and> fq \<in> seen_class st"
  shows "closed (add_declarator fq tname st d) \<and> fq \<in> seen_class (add_declarator fq tname st d)"
proof -
  let ?n = "(mk_node (fq @ ''.'' @ d) d Field)\<lparr>ndatatype := Some tname, nclass := Some fq\<rparr>"
  have n: "nid ?n = fq @ ''.'' @ d" by (simp add: mk_node_def)
  from assms have f: "fq \<in> node_ids st" by (simp add: closed_seen)
  show ?thesis
    using assms f closed_register(5) [of st ?n] closed_seen(5) [of st "fq @ ''.'' @ d"]
    by (simp add: add_declarator_def Let_def closed_add_edge n)
qed

lemma closed_add_call:
  "closed st \<and> fq \<in> seen_class st
     \<Longrightarrow> closed (add_call mid st iv) \<and> fq \<in> seen_class (add_call mid st iv)"
  by (simp add: add_call_def Let_def closed_add_edge)

lemma closed_add_method:
  assumes "closed st \<and> fq \<in> seen_class st"
  shows "closed (add_method fq st m) \<and> fq \<in> seen_class (add_method fq st m)"
proof -
  define sig where "sig = m_name m @ ''('' @ join_comma (m_parameters m) @ '')''"
  define mid where "mid = fq @ ''.'' @ sig"
  define n where "n = (mk_node mid (m_name m) Method)
                          \<lparr>nsignature := Some sig, nclass := Some fq,
                           nreturn_type := Some (case m_return_type m of
                                                   None \<Rightarrow> ''void'' | Some r \<Rightarrow> r)\<rparr>"
  define st1 where "st1 = (if mid \<notin> seen_method st
                            then (add_node n st)\<lparr>seen_method := insert mid (seen_method st)\<rparr>
                            else st)"
  define st2 where "st2 = add_edge (mk_edge fq mid Contains) st1"
  have eq: "add_method fq st m
              = (if m_body m then foldl (add_call mid) st2 (m_invocations m) else st2)"
    by (simp add: add_method_def Let_def sig_def mid_def n_def st1_def st2_def)
  have n: "nid n = mid" by (simp add: n_def mk_node_def)
  from assms have f: "fq \<in> node_ids st" by (simp add: closed_seen)
  have 2: "closed st2 \<and> fq \<in> seen_class st2"
    using assms f closed_register(4) [of st n] closed_seen(4) [of st mid]
    by (simp add: st2_def st1_def closed_add_edge n)
  then have "closed (foldl (add_call mid) st2 (m_invocations m))
             \<and> fq \<in> seen_class (foldl (add_call mid) st2 (m_invocations m))"
    by (rule foldl_preserves [where P = "\<lambda>s. closed s \<and> fq \<in> seen_class s", rotated])
       (rule closed_add_call)
  with 2 show ?thesis by (simp add: eq)
qed

lemma closed_add_member:
  assumes "closed st \<and> fq \<in> seen_class st"
  shows "closed (add_member fq st m) \<and> fq \<in> seen_class (add_member fq st m)"
proof (cases m)
  case (FieldDeclaration tname ds)
  from assms have "closed (foldl (add_declarator fq tname) st ds)
             \<and> fq \<in> seen_class (foldl (add_declarator fq tname) st ds)"
    by (rule foldl_preserves [where P = "\<lambda>s. closed s \<and> fq \<in> seen_class s", rotated])
       (rule closed_add_declarator)
  with FieldDeclaration show ?thesis by simp
next
  case (MethodDeclaration md)
  with assms show ?thesis by (simp add: closed_add_method)
next
  case OtherDeclaration
  with assms show ?thesis by simp
qed

lemma seen_file_steps [simp]:
  "seen_file (add_reference k ek pkg fq st p) = seen_file st"
  "seen_file (add_declarator fq tname st d) = seen_file st"
  "seen_file (add_call mid st iv) = seen_file st"
  by (simp_all add: add_reference_def add_declarator_def add_call_def Let_def)

lemma seen_file_foldl:
  assumes "\<And>s x. seen_file (f s x) = seen_file s"
  shows "seen_file (foldl f st xs) = seen_file st"
  by (induction xs arbitrary: st) (simp_all add: assms)

lemma seen_file_add_method [simp]: "seen_file (add_method fq st m) = seen_file st"
  by (simp add: add_method_def Let_def seen_file_foldl)

lemma seen_file_add_member [simp]: "seen_file (add_member fq st m) = seen_file st"
  by (cases m) (simp_all add: seen_file_foldl)

lemma seen_file_process_class [simp]: "seen_file (process_class path pkg st cls) = seen_file st"
  by (simp add: process_class_def Let_def seen_file_foldl)

lemma closed_process_class:
  assumes "closed st \<and> path \<in> seen_file st"
  shows "closed (process_class path pkg st cls) \<and> path \<in> seen_file (process_class path pkg st cls)"
proof -
  define fq where "fq = qualify pkg (t_name cls)"
  define entry where "entry = (mk_node fq (t_name cls) Class)
                 \<lparr>npackage := pkg, nfile := Some path,
                  nextends := extends_entry (t_extends cls),
                  nimplements := implements_entry (t_implements cls)\<rparr>"
  define st1 where "st1 = (if fq \<notin> seen_class st
                            then (add_node entry st)\<lparr>seen_class := insert fq (seen_class st)\<rparr>
                            else st)"
  define st2 where "st2 = add_edge (mk_edge path fq Contains) st1"
  define st3 where "st3 = foldl (add_reference Class Extends pkg fq) st2 (extends_names (t_extends cls))"
  define st4 where "st4 = foldl (add_reference Interface Implements pkg fq) st3
                            (implements_names (t_implements cls))"
  define st5 where "st5 = foldl (add_member fq) st4 (t_body cls)"
  have eq: "process_class path pkg st cls = st5"
    by (simp add: process_class_def Let_def fq_def entry_def st1_def st2_def st3_def st4_def st5_def)
  have n: "nid entry = fq" by (simp add: entry_def mk_node_def)
  from assms have p: "path \<in> node_ids st" by (simp add: closed_seen)
  have 2: "closed st2 \<and> fq \<in> seen_class st2"
    using assms p closed_register(3) [of st entry] closed_seen(3) [of st fq]
    by (simp add: st2_def st1_def closed_add_edge n)
  then have 3: "closed st3 \<and> fq \<in> seen_class st3"
    unfolding st3_def
    by (rule foldl_preserves [where P = "\<lambda>s. closed s \<and> fq \<in> seen_class s", rotated])
       (rule closed_add_reference, simp)
  then have 4: "closed st4 \<and> fq \<in> seen_class st4"
    unfolding st4_def
    by (rule foldl_preserves [where P = "\<lambda>s. closed s \<and> fq \<in> seen_class s", rotated])
       (rule closed_add_reference, simp)
  then have 5: "closed st5 \<and> fq \<in> seen_class st5"
    unfolding st5_def
    by (rule foldl_preserves [where P = "\<lambda>s. closed s \<and> fq \<in> seen_class s", rotated])
       (rule closed_add_member)
  from 5 assms show ?thesis by (simp add: eq [symmetric])
qed

lemma closed_process_file:
  assumes "closed st"
  shows "closed (process_file root st f)"
proof (cases "endswith (fst f) ''.java''")
  case False
  with assms show ?thesis by (simp add: process_file_def Let_def)
next
  case True
  define path where "path = path_join root (fst f)"
  define pkg where "pkg = fst (parse_java_file (snd f))"
  define fnode where "fnode = (mk_node path (fst f) File)\<lparr>npath := Some path\<rparr>"
  define st1 where "st1 = (if path \<notin> seen_file st
                            then (add_node fnode st)\<lparr>seen_file := insert path (seen_file st)\<rparr>
                            else st)"
  define pnode where "pnode = mk_node (str_of pkg) (str_of pkg) Package"
  define st1' where "st1' = (if str_of pkg \<notin> seen_package st1
                              then (add_node pnode st1)
                                     \<lparr>seen_package := insert (str_of pkg) (seen_package st1)\<rparr>
                              else st1)"
  define st2 where "st2 = (if truthy pkg
                            then add_edge (mk_edge (str_of pkg) path Contains) st1' else st1)"
  define st3 where "st3 = foldl (add_import path) st2 (fst (snd (parse_java_file (snd f))))"
  define st4 where "st4 = foldl (process_class path pkg) st3 (snd (snd (parse_java_file (snd f))))"
  have eq: "process_file root st f = st4"
    using True
    by (simp add: process_file_def Let_def path_def pkg_def fnode_def st1_def pnode_def
        st1'_def st2_def st3_def st4_def)
  have fn: "nid fnode = path" by (simp add: fnode_def mk_node_def)
  have pn: "nid pnode = str_of pkg" by (simp add: pnode_def mk_node_def)
  have 1: "closed st1 \<and> path \<in> seen_file st1"
    using assms closed_register(2) [of st fnode] by (simp add: st1_def fn)
  then have p1: "path \<in> node_ids st1" by (simp add: closed_seen)
  have s1: "closed st1' \<and> path \<in> seen_file st1' \<and> str_of pkg \<in> node_ids st1'
            \<and> path \<in> node_ids st1'"
    using 1 p1 closed_register(1) [of st1 pnode] closed_seen(1) [of st1 "str_of pkg"]
    by (simp add: st1'_def pn)
  have 2: "closed st2 \<and> path \<in> seen_file st2"
    using 1 s1 by (simp add: st2_def closed_add_edge)
  then have 3: "closed st3 \<and> path \<in> seen_file st3"
    unfolding st3_def
    by (rule foldl_preserves [where P = "\<lambda>s. closed s \<and> path \<in> seen_file s", rotated])
       (rule closed_add_import)
  then have "closed st4 \<and> path \<in> seen_file st4"
    unfolding st4_def
    by (rule foldl_preserves [where P = "\<lambda>s. closed s \<and> path \<in> seen_file s", rotated])
       (rule closed_process_class)
  then show ?thesis by (simp add: eq)
qed

lemma closed_process_dir: "closed st \<Longrightarrow> closed (process_dir st entry)"
  unfolding process_dir_def
  by (rule foldl_preserves [where P = closed]) (simp_all add: closed_process_file)

lemma closed_init: "closed init_state"
  by (simp add: closed_def init_state_def)

lemma closed_build: "closed (build src_dir tree)"
  unfolding build_def
  by (rule foldl_preserves [where P = closed]) (simp_all add: closed_process_dir closed_init)

lemma build_contains_closed:
  assumes "e \<in> set (edges (build src_dir tree))" and "etype e = Contains"
  shows "source e \<in> nid ` set (nodes (build src_dir tree))"
    and "target e \<in> nid ` set (nodes (build src_dir tree))"
  using closed_build [of src_dir tree] assms by (auto simp: closed_def node_ids_def)

end
